theory Spec2Isabelle
  imports Main "HOL-Library.AList"
begin

section \<open>Data model of \<open>bends.py\<close>\<close>

text \<open>
  A pipeline is one entry of the page returned by the Bitbucket pipelines endpoint. The
  code reads four things from it:
  \<^item> \<^verbatim>\<open>pipeline["created_on"]\<close>, parsed by \<^verbatim>\<open>strptime\<close> into a datetime; here
    the parsed instant, in microseconds (the resolution of \<^verbatim>\<open>%f\<close>);
  \<^item> \<^verbatim>\<open>pipeline["trigger"]["name"]\<close>;
  \<^item> \<^verbatim>\<open>pipeline['target']['selector']['pattern']\<close>;
  \<^item> \<^verbatim>\<open>pipeline["state"].get("result")\<close> and, when that is truthy, its
    \<^verbatim>\<open>["name"]\<close>: \<open>None\<close> while the build has no result.
\<close>

record pipeline =
  created_on :: int
  trigger_name :: string
  target_selector_pattern :: string
  state_result_name :: "string option"

text \<open>
  A service is the dictionary \<^verbatim>\<open>{"RepositorySlug": ..., "RepositoryUrl": ...}\<close> that
  \<^verbatim>\<open>get_active_services\<close> builds and the data file holds; the entry of a team in
  \<^verbatim>\<open>teams_recent_builds\<close> is \<^verbatim>\<open>{"Succeeded": [], "Failed": []}\<close>.
\<close>

record service =
  RepositorySlug :: string
  RepositoryUrl :: string

record builds =
  Succeeded :: "service list"
  Failed :: "service list"

text \<open>
  A Python dictionary keeps its keys in insertion order: it is an association list, read
  in order by \<^verbatim>\<open>for team in d.keys()\<close> and written by \<open>AList.update\<close>, which
  replaces the value of a key in place and puts a new key last, as \<^verbatim>\<open>d[k] = v\<close> does.
\<close>

type_synonym 'v dict = "(string \<times> 'v) list"

text \<open>The exceptions that leave \<^verbatim>\<open>process_services\<close>.\<close>

datatype py_error =
    TypeError   \<comment> \<open>\<^verbatim>\<open>pattern.search\<close> on a value that is not a string\<close>
  | ReError     \<comment> \<open>\<^verbatim>\<open>re.error\<close>: \<^verbatim>\<open>re.compile\<close> on a malformed pattern\<close>
  | ValueError  \<comment> \<open>\<^verbatim>\<open>range\<close> with step 0\<close>
  | SystemExit  \<comment> \<open>\<^verbatim>\<open>sys.exit(1)\<close>\<close>

text \<open>What the code passes to \<^verbatim>\<open>pattern.search\<close>: a string or a service dictionary.\<close>

datatype py_value = PyStr string | PyDict service

text \<open>
  What the code reads from outside itself, taken as parameters:
  \<^item> \<open>utcnow\<close>: the reading of \<^verbatim>\<open>datetime.now(tz=timezone.utc)\<close>, in microseconds;
  \<^item> \<open>get_default_branch\<close>, \<open>get_latest_pipelines\<close>: the answers of the two Bitbucket
    requests for a repository slug (\<open>None\<close> on an error response);
  \<^item> \<open>re_compiles\<close>, \<open>re_search\<close>: Python's \<^verbatim>\<open>re\<close> module, whether
    \<^verbatim>\<open>re.compile(pattern)\<close> succeeds and whether \<^verbatim>\<open>pattern.search(s)\<close> finds a match;
  \<^item> \<open>SLACK_WEBHOOK_URL\<close>: the environment variable.

  A pass is taken with one reading of the clock and one answer for each repository.
\<close>

record environment =
  utcnow :: int
  get_default_branch :: "string \<Rightarrow> string option"
  get_latest_pipelines :: "string \<Rightarrow> pipeline list option"
  re_compiles :: "string \<Rightarrow> bool"
  re_search :: "string \<Rightarrow> string \<Rightarrow> bool"
  SLACK_WEBHOOK_URL :: "string option"

text \<open>\<^verbatim>\<open>timedelta(weeks=1)\<close>, in microseconds.\<close>

definition recent :: int where
  "recent = 7 * 24 * 60 * 60 * 1000000"

section \<open>The classifier\<close>

text \<open>
  \<^verbatim>\<open>check_development_status\<close>, lines 280 to 313. The loop is a recursion over the
  page; \<open>recent_pipelines\<close> is the counter of the source and \<open>today\<close> the reading of
  the clock. \<^verbatim>\<open>break\<close> leaves the loop for the final \<^verbatim>\<open>return False\<close>.
\<close>

fun check_development_status_loop :: "int \<Rightarrow> nat \<Rightarrow> pipeline list \<Rightarrow> bool" where
  "check_development_status_loop today recent_pipelines [] = False"
| "check_development_status_loop today recent_pipelines (pipeline # pipelines) =
     (if today - created_on pipeline \<le> recent then
        (if trigger_name pipeline \<noteq> ''SCHEDULE'' \<or> recent_pipelines + 1 > 1 then True
         else check_development_status_loop today (recent_pipelines + 1) pipelines)
      else False)"

definition check_development_status :: "environment \<Rightarrow> pipeline list \<Rightarrow> bool" where
  "check_development_status env pipelines =
     check_development_status_loop (utcnow env) 0 pipelines"

text \<open>
  \<^verbatim>\<open>get_recent_scheduled_pipeline\<close>, lines 249 to 277. The source asks for the default
  branch first. A pattern never equals \<^verbatim>\<open>None\<close> in Python, so the comparison is with
  \<open>Some\<close> of it.
\<close>

fun get_recent_scheduled_pipeline_loop ::
  "int \<Rightarrow> string option \<Rightarrow> pipeline list \<Rightarrow> pipeline option" where
  "get_recent_scheduled_pipeline_loop today branch [] = None"
| "get_recent_scheduled_pipeline_loop today branch (pipeline # pipelines) =
     (if today - created_on pipeline \<le> recent then
        (if trigger_name pipeline = ''SCHEDULE''
            \<and> Some (target_selector_pattern pipeline) = branch
         then Some pipeline
         else get_recent_scheduled_pipeline_loop today branch pipelines)
      else None)"

definition get_recent_scheduled_pipeline ::
  "environment \<Rightarrow> string \<Rightarrow> pipeline list \<Rightarrow> pipeline option" where
  "get_recent_scheduled_pipeline env repo_slug pipelines =
     (let branch = get_default_branch env repo_slug
      in get_recent_scheduled_pipeline_loop (utcnow env) branch pipelines)"

text \<open>
  The words of the specification: a record is within the window when its age does not
  exceed one week, and the scan sees the records before the first one that is older.
\<close>

definition within_window :: "environment \<Rightarrow> pipeline \<Rightarrow> bool" where
  "within_window env p = (utcnow env - created_on p \<le> recent)"

definition scanned :: "environment \<Rightarrow> pipeline list \<Rightarrow> pipeline list" where
  "scanned env history = takeWhile (within_window env) history"

definition scheduled :: "pipeline \<Rightarrow> bool" where
  "scheduled p = (trigger_name p = ''SCHEDULE'')"

section \<open>The ledger builder\<close>

text \<open>
  \<^verbatim>\<open>match_override\<close>, lines 366 to 379. Each pattern is compiled, then searched in
  the first argument; \<^verbatim>\<open>search\<close> raises \<^verbatim>\<open>TypeError\<close> on an argument that is not a
  string.
\<close>

fun match_override :: "environment \<Rightarrow> py_value \<Rightarrow> string list \<Rightarrow> py_error + bool" where
  "match_override env repo_slug [] = Inr False"
| "match_override env repo_slug (pattern # override) =
     (if \<not> re_compiles env pattern then Inl ReError
      else case repo_slug of
        PyDict _ \<Rightarrow> Inl TypeError
      | PyStr s \<Rightarrow>
          if re_search env pattern s then Inr True
          else match_override env repo_slug override)"

text \<open>
  The body of the loop over the services of a team, lines 458 to 486, on the team's entry
  of \<^verbatim>\<open>teams_recent_builds\<close>. Line 462 calls \<^verbatim>\<open>match_override(service, override)\<close>:
  the argument is the service dictionary, not \<^verbatim>\<open>repo_slug\<close>. \<^verbatim>\<open>continue\<close> leaves the
  entry as it is; \<^verbatim>\<open>if not pipelines\<close> holds for \<^verbatim>\<open>None\<close> and for the empty page.
\<close>

definition process_service ::
  "environment \<Rightarrow> string list \<Rightarrow> service \<Rightarrow> builds \<Rightarrow> py_error + builds" where
  "process_service env override service entry =
     (let repo_slug = RepositorySlug service in
      case (if override \<noteq> [] then match_override env (PyDict service) override
            else Inr False) of
        Inl e \<Rightarrow> Inl e
      | Inr True \<Rightarrow> Inr entry
      | Inr False \<Rightarrow>
          (case get_latest_pipelines env repo_slug of
             None \<Rightarrow> Inr entry
           | Some pipelines \<Rightarrow>
               if pipelines = [] then Inr entry
               else
                 let in_development = check_development_status env pipelines in
                 if \<not> in_development then
                   (case get_recent_scheduled_pipeline env repo_slug pipelines of
                      None \<Rightarrow> Inr entry
                    | Some recent_scheduled_pipeline \<Rightarrow>
                        let build_state = state_result_name recent_scheduled_pipeline in
                        if build_state = Some ''FAILED''
                        then Inr (entry\<lparr>Failed := Failed entry @ [service]\<rparr>)
                        else Inr (entry\<lparr>Succeeded := Succeeded entry @ [service]\<rparr>))
                 else Inr entry))"

text \<open>The loop over \<^verbatim>\<open>teams_services[team]\<close>, line 457; an exception ends it.\<close>

fun process_team ::
  "environment \<Rightarrow> string list \<Rightarrow> service list \<Rightarrow> builds \<Rightarrow> py_error + builds" where
  "process_team env override [] entry = Inr entry"
| "process_team env override (service # services) entry =
     (case process_service env override service entry of
        Inl e \<Rightarrow> Inl e
      | Inr entry' \<Rightarrow> process_team env override services entry')"

text \<open>
  The loop over the teams, lines 448 to 486, with the dictionary under construction as
  accumulator. \<^verbatim>\<open>if teams\<close> holds for a non-empty list. Line 456 stores a fresh entry
  for the team and the inner loop appends to it, so the dictionary ends with the entry the
  inner loop leaves.
\<close>

fun process_services_loop ::
  "environment \<Rightarrow> string list \<Rightarrow> string list \<Rightarrow> service list dict \<Rightarrow> builds dict
     \<Rightarrow> py_error + builds dict" where
  "process_services_loop env teams override [] acc = Inr acc"
| "process_services_loop env teams override ((team, services) # rest) acc =
     (if teams \<noteq> [] \<and> team \<notin> set teams
      then process_services_loop env teams override rest acc
      else
        (case process_team env override services \<lparr>Succeeded = [], Failed = []\<rparr> of
           Inl e \<Rightarrow> Inl e
         | Inr entry \<Rightarrow>
             process_services_loop env teams override rest (AList.update team entry acc)))"

text \<open>The value of \<^verbatim>\<open>teams_recent_builds\<close> at line 487, or the exception raised before.\<close>

definition process_services_ledger ::
  "environment \<Rightarrow> string list \<Rightarrow> string list \<Rightarrow> service list dict \<Rightarrow> py_error + builds dict" where
  "process_services_ledger env teams override teams_services =
     process_services_loop env teams override teams_services []"

text \<open>
  The words of the specification for the ledger: the build that is reported for a service,
  none when the service is skipped (no history, in development, or no recent scheduled
  build), and the two ways a reported build counts.
\<close>

definition found_build :: "environment \<Rightarrow> service \<Rightarrow> pipeline option" where
  "found_build env service =
     (case get_latest_pipelines env (RepositorySlug service) of
        None \<Rightarrow> None
      | Some history \<Rightarrow>
          if history = [] \<or> check_development_status env history then None
          else get_recent_scheduled_pipeline env (RepositorySlug service) history)"

definition skipped :: "environment \<Rightarrow> service \<Rightarrow> bool" where
  "skipped env service = (found_build env service = None)"

definition fails :: "environment \<Rightarrow> service \<Rightarrow> bool" where
  "fails env service =
     (case found_build env service of
        None \<Rightarrow> False
      | Some build \<Rightarrow> state_result_name build = Some ''FAILED'')"

definition succeeds :: "environment \<Rightarrow> service \<Rightarrow> bool" where
  "succeeds env service =
     (case found_build env service of
        None \<Rightarrow> False
      | Some build \<Rightarrow> state_result_name build \<noteq> Some ''FAILED'')"

section \<open>The renderers\<close>

text \<open>
  A Slack block as the code writes it: a header with plain text, a divider, or a section
  with markdown text.
\<close>

datatype block = Header string | Divider | Section string

text \<open>
  The decimal numeral of a count, as an f-string formats \<^verbatim>\<open>len(...)\<close>; \<open>digit\<close> is
  applied to numbers below 10 only.
\<close>

definition digit :: "nat \<Rightarrow> char" where
  "digit d = ''0123456789'' ! d"

function str :: "nat \<Rightarrow> string" where
  "str n = (if n < 10 then [digit n] else str (n div 10) @ [digit (n mod 10)])"
  by pat_completeness auto
termination
  by (relation "measure id") auto

declare str.simps [simp del]

text \<open>The newline, and the bullet U+2022 in UTF-8.\<close>

definition newline :: string where
  "newline = [CHR 0x0A]"

definition bullet :: string where
  "bullet = [CHR 0xE2, CHR 0x80, CHR 0xA2]"

text \<open>
  The loop \<^verbatim>\<open>for build in teams_recent_builds[team]["Failed"]\<close> of lines 123 and 191,
  which appends one link line to \<open>text\<close> for each build.
\<close>

fun failed_lines :: "service list \<Rightarrow> string \<Rightarrow> string" where
  "failed_lines [] text = text"
| "failed_lines (build # failed) text =
     failed_lines failed
       (text @ ''>'' @ bullet @ '' <'' @ RepositoryUrl build @ ''|'' @ RepositorySlug build
          @ ''>'' @ newline)"

text \<open>
  \<^verbatim>\<open>generate_overall_summary\<close>, lines 58 to 137: the loop over the teams, with
  \<open>summary\<close> as accumulator.
\<close>

fun generate_overall_summary_loop :: "builds dict \<Rightarrow> block list \<Rightarrow> block list" where
  "generate_overall_summary_loop [] summary = summary"
| "generate_overall_summary_loop ((team, entry) # rest) summary =
     (let summary = summary @ [Divider, Section (''Team: *'' @ team @ ''*'')] in
      if length (Succeeded entry) = 0 \<and> length (Failed entry) = 0 then
        generate_overall_summary_loop rest
          (summary @ [Section ''No scheduled builds in repositories not in development.''])
      else
        let successful_builds = length (Succeeded entry);
            text = ''*Successful Builds*'' @ newline;
            text =
              (if successful_builds = 1
               then text @ ''>*'' @ str successful_builds @ '' repository* had a successful build.''
               else text @ ''>*'' @ str successful_builds
                      @ '' repositories* had successful builds.'');
            summary = summary @ [Section text];
            text = ''*Failed Builds*'' @ newline;
            text =
              (if length (Failed entry) \<noteq> 0 then failed_lines (Failed entry) text
               else text @ ''>No failed builds.'')
        in generate_overall_summary_loop rest (summary @ [Section text]))"

definition generate_overall_summary :: "builds dict \<Rightarrow> block list" where
  "generate_overall_summary teams_recent_builds =
     generate_overall_summary_loop teams_recent_builds
       [Header ''Build Error Notification Dispatch System'']"

text \<open>
  \<^verbatim>\<open>generate_team_summaries\<close>, lines 140 to 207: the loop over the teams, with the
  dictionary \<open>team_summaries\<close> as accumulator. Line 194 assigns where line 126 appends.
\<close>

fun generate_team_summaries_loop :: "builds dict \<Rightarrow> block list dict \<Rightarrow> block list dict" where
  "generate_team_summaries_loop [] team_summaries = team_summaries"
| "generate_team_summaries_loop ((team, entry) # rest) team_summaries =
     (if length (Failed entry) = 0 then generate_team_summaries_loop rest team_summaries
      else
        let summary_blocks = [Header ''Build Error Notification Dispatch System'', Divider];
            successful_builds = length (Succeeded entry);
            text = ''*Successful Builds*'' @ newline;
            text =
              (if successful_builds = 1
               then text @ ''>*'' @ str successful_builds @ '' repository* had a successful build.''
               else text @ ''>*'' @ str successful_builds
                      @ '' repositories* had successful builds.'');
            summary_blocks = summary_blocks @ [Section text, Divider];
            text = ''*Failed Builds*'' @ newline;
            text =
              (if length (Failed entry) \<noteq> 0 then failed_lines (Failed entry) text
               else ''>No failed builds.'');
            summary_blocks = summary_blocks @ [Section text]
        in generate_team_summaries_loop rest (AList.update team summary_blocks team_summaries))"

definition generate_team_summaries :: "builds dict \<Rightarrow> block list dict" where
  "generate_team_summaries teams_recent_builds =
     generate_team_summaries_loop teams_recent_builds []"

section \<open>The dispatcher\<close>

text \<open>
  \<^verbatim>\<open>post_to_slack\<close>, lines 22 to 39. Without the webhook URL (unset or empty) the
  process exits: \<^verbatim>\<open>SystemExit\<close> is not a \<^verbatim>\<open>RequestException\<close>. Otherwise the
  payload is handed to \<^verbatim>\<open>requests.post\<close>, whose failures are logged and swallowed; the
  result is the payload.
\<close>

record payload =
  payload_blocks :: "block list"
  payload_channel :: string

definition post_to_slack :: "environment \<Rightarrow> string \<Rightarrow> block list \<Rightarrow> py_error + payload" where
  "post_to_slack env team blocks =
     (case SLACK_WEBHOOK_URL env of
        None \<Rightarrow> Inl SystemExit
      | Some slack_webhook_url \<Rightarrow>
          if slack_webhook_url = [] then Inl SystemExit
          else Inr \<lparr>payload_blocks = blocks, payload_channel = ''team-'' @ team @ ''-bots''\<rparr>)"

text \<open>
  The loop \<^verbatim>\<open>for i in range(0, len(summaries[team]), max_blocks_per_message)\<close> of line 53,
  from index \<open>i\<close> on, with the payloads posted so far. The slice
  \<^verbatim>\<open>summaries[team][i:i + max_blocks_per_message]\<close> is \<open>take\<close> after \<open>drop\<close>.
\<close>

function post_chunks ::
  "environment \<Rightarrow> string \<Rightarrow> block list \<Rightarrow> nat \<Rightarrow> nat \<Rightarrow> payload list
     \<Rightarrow> py_error + payload list" where
  "post_chunks env team blocks max_blocks_per_message i posted =
     (if i < length blocks \<and> 0 < max_blocks_per_message then
        (let chunked_summary_blocks = take max_blocks_per_message (drop i blocks) in
         case post_to_slack env team chunked_summary_blocks of
           Inl e \<Rightarrow> Inl e
         | Inr p \<Rightarrow>
             post_chunks env team blocks max_blocks_per_message (i + max_blocks_per_message)
               (posted @ [p]))
      else Inr posted)"
  by pat_completeness auto
termination
  by (relation "measure (\<lambda>(env, team, blocks, m, i, posted). length blocks - i)") auto

declare post_chunks.simps [simp del]

text \<open>
  \<^verbatim>\<open>post_team_summaries_to_slack\<close>, lines 42 to 55: the loop over the teams.
  \<^verbatim>\<open>range\<close> raises \<^verbatim>\<open>ValueError\<close> for the step 0. The result is the list of the
  payloads posted, in order.
\<close>

fun post_team_summaries_to_slack_loop ::
  "environment \<Rightarrow> block list dict \<Rightarrow> nat \<Rightarrow> payload list \<Rightarrow> py_error + payload list" where
  "post_team_summaries_to_slack_loop env [] max_blocks_per_message posted = Inr posted"
| "post_team_summaries_to_slack_loop env ((team, blocks) # rest) max_blocks_per_message posted =
     (if max_blocks_per_message = 0 then Inl ValueError
      else
        (case post_chunks env team blocks max_blocks_per_message 0 posted of
           Inl e \<Rightarrow> Inl e
         | Inr posted' \<Rightarrow>
             post_team_summaries_to_slack_loop env rest max_blocks_per_message posted'))"

definition post_team_summaries_to_slack ::
  "environment \<Rightarrow> block list dict \<Rightarrow> nat \<Rightarrow> py_error + payload list" where
  "post_team_summaries_to_slack env summaries max_blocks_per_message =
     post_team_summaries_to_slack_loop env summaries max_blocks_per_message []"

section \<open>The whole pass\<close>

definition OVERALL_SUMMARY_RECIPIENT :: string where
  "OVERALL_SUMMARY_RECIPIENT = ''''"

text \<open>
  \<^verbatim>\<open>process_services\<close>, lines 428 to 504, after the services are loaded. The result is
  the list of the payloads posted; a dry run only logs.
\<close>

definition process_services ::
  "environment \<Rightarrow> string list \<Rightarrow> string list \<Rightarrow> service list dict \<Rightarrow> bool
     \<Rightarrow> py_error + payload list" where
  "process_services env teams override teams_services dry_run =
     (case process_services_ledger env teams override teams_services of
        Inl e \<Rightarrow> Inl e
      | Inr ledger \<Rightarrow>
          if dry_run then Inr []
          else
            let overall_summary = generate_overall_summary ledger;
                team_summaries = generate_team_summaries ledger;
                team_summaries =
                  AList.update OVERALL_SUMMARY_RECIPIENT overall_summary team_summaries
            in post_team_summaries_to_slack env team_summaries 10)"

section \<open>A sample environment\<close>

text \<open>
  The examples below run the code in one environment. The clock reads \<open>10\<^sup>1\<^sup>2\<close>
  microseconds; a build created one microsecond earlier is fresh, one created at 0 is
  older than a week. Every repository has the default branch \<open>main\<close>.
\<close>

definition fresh_build :: "string \<Rightarrow> string option \<Rightarrow> pipeline" where
  "fresh_build trigger result =
     \<lparr>created_on = 999999999999, trigger_name = trigger, target_selector_pattern = ''main'',
      state_result_name = result\<rparr>"

definition stale_build :: "string \<Rightarrow> string option \<Rightarrow> pipeline" where
  "stale_build trigger result =
     \<lparr>created_on = 0, trigger_name = trigger, target_selector_pattern = ''main'',
      state_result_name = result\<rparr>"

definition sample_pipelines :: "string \<Rightarrow> pipeline list option" where
  "sample_pipelines repo_slug =
     (if repo_slug = ''legacy-api'' then Some [fresh_build ''SCHEDULE'' (Some ''FAILED'')]
      else if repo_slug = ''billing'' then Some [fresh_build ''SCHEDULE'' (Some ''SUCCESSFUL'')]
      else if repo_slug = ''search'' then Some [fresh_build ''SCHEDULE'' None]
      else if repo_slug = ''portal'' then
        Some [fresh_build ''PUSH'' (Some ''FAILED''), fresh_build ''SCHEDULE'' (Some ''FAILED'')]
      else if repo_slug = ''archive'' then Some [stale_build ''SCHEDULE'' (Some ''FAILED'')]
      else if repo_slug = ''empty'' then Some []
      else None)"

text \<open>
  The fragment of \<^verbatim>\<open>re\<close> on patterns that are a literal text, with or without a
  leading \<^verbatim>\<open>^\<close>: an anchored pattern matches at the start of the string only.
\<close>

fun starts_with :: "string \<Rightarrow> string \<Rightarrow> bool" where
  "starts_with [] s = True"
| "starts_with (c # cs) [] = False"
| "starts_with (c # cs) (d # ds) = (c = d \<and> starts_with cs ds)"

fun occurs_in :: "string \<Rightarrow> string \<Rightarrow> bool" where
  "occurs_in literal [] = starts_with literal []"
| "occurs_in literal (d # ds) = (starts_with literal (d # ds) \<or> occurs_in literal ds)"

definition literal_search :: "string \<Rightarrow> string \<Rightarrow> bool" where
  "literal_search pattern s =
     (case pattern of
        [] \<Rightarrow> True
      | c # literal \<Rightarrow> if c = CHR ''^'' then starts_with literal s else occurs_in pattern s)"

definition sample_env :: environment where
  "sample_env =
     \<lparr>utcnow = 1000000000000,
      get_default_branch = (\<lambda>repo_slug. Some ''main''),
      get_latest_pipelines = sample_pipelines,
      re_compiles = (\<lambda>pattern. True),
      re_search = literal_search,
      SLACK_WEBHOOK_URL = Some ''https://hooks.slack.com/services/T0/B0/X0''\<rparr>"

definition sample_service :: "string \<Rightarrow> service" where
  "sample_service repo_slug =
     \<lparr>RepositorySlug = repo_slug, RepositoryUrl = ''https://bitbucket.org/acme/'' @ repo_slug\<rparr>"

definition sample_teams_services :: "service list dict" where
  "sample_teams_services =
     [(''platform'',
        [sample_service ''legacy-api'', sample_service ''billing'', sample_service ''search'',
         sample_service ''portal'', sample_service ''archive'', sample_service ''empty'',
         sample_service ''unknown'']),
      (''web'', [sample_service ''billing''])]"

text \<open>A ledger with every kind of entry.\<close>

definition sample_ledger :: "builds dict" where
  "sample_ledger =
     [(''platform'',
        \<lparr>Succeeded = [sample_service ''billing'', sample_service ''search''],
         Failed = [sample_service ''legacy-api'']\<rparr>),
      (''web'', \<lparr>Succeeded = [sample_service ''billing''], Failed = []\<rparr>),
      (''ops'', \<lparr>Succeeded = [], Failed = [sample_service ''portal'']\<rparr>),
      (''idle'', \<lparr>Succeeded = [], Failed = []\<rparr>)]"

section \<open>The words of the specification for the digest\<close>

text \<open>
  The success phrase: singular for the count 1, plural for every other count. The
  markdown of the code (the bold count and the quote mark) is part of the text.
\<close>

definition success_phrase :: "nat \<Rightarrow> string" where
  "success_phrase n =
     (if n = 1 then ''>*1 repository* had a successful build.''
      else ''>*'' @ str n @ '' repositories* had successful builds.'')"

text \<open>The formatted link line of a failed repository.\<close>

definition link_line :: "service \<Rightarrow> string" where
  "link_line build =
     ''>'' @ bullet @ '' <'' @ RepositoryUrl build @ ''|'' @ RepositorySlug build @ ''>'' @ newline"

text \<open>
  The positional split of a sequence into consecutive chunks of at most \<open>n\<close> elements.
\<close>

function chunks :: "nat \<Rightarrow> 'a list \<Rightarrow> 'a list list" where
  "chunks n xs = (if xs = [] \<or> n = 0 then [] else take n xs # chunks n (drop n xs))"
  by pat_completeness auto
termination
  by (relation "measure (\<lambda>(n, xs). length xs)") auto

declare chunks.simps [simp del]

text \<open>The channel of a team, as \<open>post_to_slack\<close> names it.\<close>

definition team_channel :: "string \<Rightarrow> string" where
  "team_channel team = ''team-'' @ team @ ''-bots''"

text \<open>
  The digest of one team, in the order the specification gives: header, divider,
  success count, divider, failure list.
\<close>

definition team_digest :: "builds \<Rightarrow> block list" where
  "team_digest entry =
     [Header ''Build Error Notification Dispatch System'',
      Divider,
      Section (''*Successful Builds*'' @ newline @ success_phrase (length (Succeeded entry))),
      Divider,
      Section (''*Failed Builds*'' @ newline @ concat (map link_line (Failed entry)))]"

text \<open>
  The part of one team in the overall digest: a divider, the team's name, and either
  the note that there is nothing to report or the success count and the failure section.
\<close>

definition overall_part :: "string \<times> builds \<Rightarrow> block list" where
  "overall_part = (\<lambda>(team, entry).
     [Divider, Section (''Team: *'' @ team @ ''*'')]
     @ (if Succeeded entry = [] \<and> Failed entry = []
        then [Section ''No scheduled builds in repositories not in development.'']
        else [Section (''*Successful Builds*'' @ newline
                         @ success_phrase (length (Succeeded entry))),
              Section (''*Failed Builds*'' @ newline
                         @ (if Failed entry = [] then ''>No failed builds.''
                            else concat (map link_line (Failed entry))))]))"

section \<open>Properties of the classifier\<close>

lemma check_development_status_loop_counted:
  "check_development_status_loop (utcnow env) (Suc n) history = (scanned env history \<noteq> [])"
  by (cases history) (simp_all add: scanned_def within_window_def)

lemma check_development_status_loop_fresh:
  "check_development_status_loop (utcnow env) 0 history =
     ((\<exists>p \<in> set (scanned env history). \<not> scheduled p) \<or> 2 \<le> length (scanned env history))"
proof (cases history)
  case Nil
  then show ?thesis by (simp add: scanned_def)
next
  case (Cons p ps)
  show ?thesis
  proof (cases "within_window env p")
    case False
    with Cons show ?thesis by (simp add: scanned_def within_window_def)
  next
    case True
    have rest: "check_development_status_loop (utcnow env) (Suc 0) ps = (scanned env ps \<noteq> [])"
      by (rule check_development_status_loop_counted)
    have len: "(2 \<le> length (p # scanned env ps)) = (scanned env ps \<noteq> [])"
      by (cases "scanned env ps") simp_all
    have mem: "scanned env ps = [] \<Longrightarrow> \<not> (\<exists>q \<in> set (scanned env ps). \<not> scheduled q)"
      by simp
    from True have sc: "scanned env (p # ps) = p # scanned env ps"
      by (simp add: scanned_def)
    from True have w: "utcnow env - created_on p \<le> recent"
      by (simp add: within_window_def)
    show ?thesis
      unfolding Cons sc using w rest len mem
      by (auto simp: scheduled_def)
  qed
qed

text \<open>
  C1. For every build history, \<open>check_development_status\<close> returns true exactly when
  the scan from newest to oldest, which stops at the first record older than one week,
  meets a within-window record whose trigger is not the scheduled one, or meets a second
  within-window record of any kind; otherwise it returns false.
\<close>

theorem C1_check_development_status_iff:
  "check_development_status env history =
     ((\<exists>p \<in> set (scanned env history). \<not> scheduled p) \<or> 2 \<le> length (scanned env history))"
  unfolding check_development_status_def by (rule check_development_status_loop_fresh)

text \<open>
  The second-record rule of C1 at an input: two scheduled builds within the window.
\<close>

lemma two_scheduled_in_development:
  "check_development_status sample_env
     [fresh_build ''SCHEDULE'' None, fresh_build ''SCHEDULE'' (Some ''SUCCESSFUL'')]"
  by (simp add: check_development_status_def sample_env_def fresh_build_def recent_def)

lemma one_scheduled_not_in_development:
  "\<not> check_development_status sample_env [fresh_build ''SCHEDULE'' None]"
  by (simp add: check_development_status_def sample_env_def fresh_build_def recent_def)

text \<open>
  C2, as stated, fails: the age of the newest record matters. A history whose only record
  was triggered by a push and is older than one week is not in development.
\<close>

theorem C2_stale_push_counterexample:
  "trigger_name (stale_build ''PUSH'' (Some ''SUCCESSFUL'')) \<noteq> ''SCHEDULE''
   \<and> \<not> check_development_status sample_env [stale_build ''PUSH'' (Some ''SUCCESSFUL'')]"
  by (simp add: check_development_status_def sample_env_def stale_build_def recent_def)

text \<open>
  C2, amended. For every history whose newest record is within the one-week window and
  has a trigger other than the scheduled one, \<open>check_development_status\<close> returns true,
  whatever the older records are.
\<close>

theorem C2_recent_unscheduled_newest:
  assumes "within_window env newest" and "\<not> scheduled newest"
  shows "check_development_status env (newest # older)"
  using assms
  by (simp add: check_development_status_def within_window_def scheduled_def)

theorem C2_recent_unscheduled_newest_witness:
  "check_development_status sample_env
     [fresh_build ''PUSH'' None, stale_build ''SCHEDULE'' (Some ''FAILED'')]"
  by (rule C2_recent_unscheduled_newest)
     (simp_all add: within_window_def scheduled_def recent_def sample_env_def fresh_build_def)

lemma get_recent_scheduled_pipeline_loop_find:
  "get_recent_scheduled_pipeline_loop (utcnow env) branch history =
     List.find (\<lambda>p. scheduled p \<and> Some (target_selector_pattern p) = branch)
       (scanned env history)"
  by (induction history) (simp_all add: scanned_def within_window_def scheduled_def)

lemma find_satisfies:
  "(case List.find P xs of None \<Rightarrow> True | Some x \<Rightarrow> P x \<and> x \<in> set xs)"
  by (induction xs) (auto split: option.splits)

text \<open>
  C4. For every build history and every answer of the default-branch request,
  \<open>get_recent_scheduled_pipeline\<close> returns the first record, in the scan from newest to
  oldest that stops at the first record older than one week, whose trigger is the
  scheduled one and whose target branch pattern is the default branch, and \<open>None\<close> when
  the scanned records hold none; a record it returns has the default branch as its
  pattern.
\<close>

theorem C4_get_recent_scheduled_pipeline_find:
  "get_recent_scheduled_pipeline env repo_slug history =
     List.find
       (\<lambda>p. scheduled p \<and> Some (target_selector_pattern p) = get_default_branch env repo_slug)
       (scanned env history)
   \<and> (case get_recent_scheduled_pipeline env repo_slug history of
        None \<Rightarrow> True
      | Some p \<Rightarrow> Some (target_selector_pattern p) = get_default_branch env repo_slug)"
proof -
  let ?P = "\<lambda>p. scheduled p \<and> Some (target_selector_pattern p) = get_default_branch env repo_slug"
  have eq: "get_recent_scheduled_pipeline env repo_slug history =
      List.find ?P (scanned env history)"
    by (simp add: get_recent_scheduled_pipeline_def get_recent_scheduled_pipeline_loop_find)
  have "case List.find ?P (scanned env history) of None \<Rightarrow> True
        | Some x \<Rightarrow> ?P x \<and> x \<in> set (scanned env history)"
    by (rule find_satisfies)
  with eq show ?thesis
    by (simp split: option.splits)
qed

text \<open>
  The only recent scheduled build of a repository runs on another branch: none is found.
\<close>

lemma other_branch_not_returned:
  "get_recent_scheduled_pipeline sample_env ''billing''
     [\<lparr>created_on = 999999999999, trigger_name = ''SCHEDULE'',
       target_selector_pattern = ''release'', state_result_name = Some ''FAILED''\<rparr>] = None"
  by (simp add: get_recent_scheduled_pipeline_def sample_env_def recent_def)




section \<open>Properties of the ledger builder\<close>

text \<open>
  On a slug, \<open>match_override\<close> searches: the anchored pattern matches \<open>legacy-api\<close>
  and not \<open>my-legacy-api\<close>.
\<close>

lemma match_override_on_slug:
  "match_override sample_env (PyStr ''legacy-api'') [''^legacy-''] = Inr True
   \<and> match_override sample_env (PyStr ''my-legacy-api'') [''^legacy-''] = Inr False
   \<and> match_override sample_env (PyStr ''my-legacy-api'') [''legacy-''] = Inr True"
  by (simp add: sample_env_def literal_search_def)

lemma match_override_on_service:
  "override \<noteq> [] \<Longrightarrow>
     match_override env (PyDict service) override
       = Inl (if re_compiles env (hd override) then TypeError else ReError)"
  by (cases override) simp_all

lemma process_service_override_raises:
  "override \<noteq> [] \<Longrightarrow>
     process_service env override service entry
       = Inl (if re_compiles env (hd override) then TypeError else ReError)"
  by (simp add: process_service_def match_override_on_service)

text \<open>
  C3. The claim: a service whose slug some ignore pattern matches is skipped, and leaves
  no entry. The code passes the service dictionary to \<open>match_override\<close>, so with a
  non-empty list of patterns the first service of the pass raises instead: \<open>TypeError\<close>,
  or \<open>re.error\<close> when the first pattern does not compile.
\<close>

theorem C3_override_raises:
  assumes "override \<noteq> []"
  shows "process_service env override service entry
     = Inl (if re_compiles env (hd override) then TypeError else ReError)"
  using assms by (rule process_service_override_raises)

theorem C3_override_raises_witness:
  "process_service sample_env [''^legacy-''] (sample_service ''legacy-api'')
     \<lparr>Succeeded = [], Failed = []\<rparr> = Inl TypeError"
  using C3_override_raises [of "[''^legacy-'']" sample_env "sample_service ''legacy-api''"
      "\<lparr>Succeeded = [], Failed = []\<rparr>"]
  by (simp add: sample_env_def)

lemma legacy_api_pass_raises:
  "process_services_ledger sample_env [] [''^legacy-'']
     [(''platform'', [sample_service ''legacy-api''])] = Inl TypeError
   \<and> process_services_ledger sample_env [] [''^legacy-'']
     [(''platform'', [sample_service ''my-legacy-api''])] = Inl TypeError
   \<and> process_services sample_env [] [''^legacy-'']
     [(''platform'', [sample_service ''legacy-api''])] False = Inl TypeError"
  by (simp add: process_services_def process_services_ledger_def process_service_def
      sample_env_def)

text \<open>
  C6. When the pass reaches a repository's recent scheduled build (no ignore patterns, a
  non-empty history, not in development, a build found), the service is appended to
  \<open>Failed\<close> exactly when the build has a result and its name is \<open>FAILED\<close>; with any
  other result, or none, it is appended to \<open>Succeeded\<close>.
\<close>

theorem C6_found_build_classified:
  assumes "override = []"
    and "get_latest_pipelines env (RepositorySlug service) = Some pipelines"
    and "pipelines \<noteq> []"
    and "\<not> check_development_status env pipelines"
    and "get_recent_scheduled_pipeline env (RepositorySlug service) pipelines = Some build"
  shows "process_service env override service entry
     = Inr (if state_result_name build = Some ''FAILED''
            then entry\<lparr>Failed := Failed entry @ [service]\<rparr>
            else entry\<lparr>Succeeded := Succeeded entry @ [service]\<rparr>)"
  using assms by (simp add: process_service_def)

theorem C6_found_build_classified_witness:
  "process_service sample_env [] (sample_service ''legacy-api'') \<lparr>Succeeded = [], Failed = []\<rparr>
     = Inr \<lparr>Succeeded = [], Failed = [sample_service ''legacy-api'']\<rparr>
   \<and> process_service sample_env [] (sample_service ''search'') \<lparr>Succeeded = [], Failed = []\<rparr>
     = Inr \<lparr>Succeeded = [sample_service ''search''], Failed = []\<rparr>"
proof -
  have failed_page: "get_latest_pipelines sample_env (RepositorySlug (sample_service ''legacy-api''))
      = Some [fresh_build ''SCHEDULE'' (Some ''FAILED'')]"
    by (simp add: sample_env_def sample_service_def sample_pipelines_def)
  have failed_quiet: "\<not> check_development_status sample_env [fresh_build ''SCHEDULE'' (Some ''FAILED'')]"
    by (simp add: check_development_status_def sample_env_def fresh_build_def recent_def)
  have failed_found: "get_recent_scheduled_pipeline sample_env
      (RepositorySlug (sample_service ''legacy-api'')) [fresh_build ''SCHEDULE'' (Some ''FAILED'')]
      = Some (fresh_build ''SCHEDULE'' (Some ''FAILED''))"
    by (simp add: get_recent_scheduled_pipeline_def sample_env_def fresh_build_def recent_def)
  have running_page: "get_latest_pipelines sample_env (RepositorySlug (sample_service ''search''))
      = Some [fresh_build ''SCHEDULE'' None]"
    by (simp add: sample_env_def sample_service_def sample_pipelines_def)
  have running_quiet: "\<not> check_development_status sample_env [fresh_build ''SCHEDULE'' None]"
    by (simp add: check_development_status_def sample_env_def fresh_build_def recent_def)
  have running_found: "get_recent_scheduled_pipeline sample_env
      (RepositorySlug (sample_service ''search'')) [fresh_build ''SCHEDULE'' None]
      = Some (fresh_build ''SCHEDULE'' None)"
    by (simp add: get_recent_scheduled_pipeline_def sample_env_def fresh_build_def recent_def)
  have nonempty: "[p] \<noteq> []" for p :: pipeline
    by simp
  show ?thesis
    using C6_found_build_classified [OF refl failed_page nonempty failed_quiet failed_found,
        of "\<lparr>Succeeded = [], Failed = []\<rparr>"]
      C6_found_build_classified [OF refl running_page nonempty running_quiet running_found,
        of "\<lparr>Succeeded = [], Failed = []\<rparr>"]
    by (simp add: fresh_build_def)
qed

lemma process_service_outcome:
  "process_service env [] service entry
     = Inr (if fails env service then entry\<lparr>Failed := Failed entry @ [service]\<rparr>
            else if succeeds env service then entry\<lparr>Succeeded := Succeeded entry @ [service]\<rparr>
            else entry)"
  by (simp add: process_service_def fails_def succeeds_def found_build_def
      split: option.splits)

lemma process_team_no_override:
  "process_team env [] services entry
     = Inr \<lparr>Succeeded = Succeeded entry @ filter (succeeds env) services,
            Failed = Failed entry @ filter (fails env) services\<rparr>"
proof (induction services arbitrary: entry)
  case Nil
  show ?case by simp
next
  case (Cons service services)
  have exclusive: "fails env service \<Longrightarrow> \<not> succeeds env service"
    by (simp add: fails_def succeeds_def split: option.splits)
  show ?case
    by (simp add: process_service_outcome Cons.IH exclusive)
qed

lemma process_team_override:
  assumes "override \<noteq> []" and "process_team env override services entry = Inr entry'"
  shows "services = [] \<and> entry' = entry"
proof (cases services)
  case Nil
  with assms show ?thesis by simp
next
  case (Cons service rest)
  with assms show ?thesis
    by (simp add: process_service_override_raises)
qed

lemma update_member:
  "(k', v') \<in> set (AList.update k v al) \<Longrightarrow> (k', v') = (k, v) \<or> (k', v') \<in> set al"
  by (induction al) (auto split: if_splits)

lemma process_team_result:
  assumes "process_team env override services \<lparr>Succeeded = [], Failed = []\<rparr> = Inr entry"
  shows "Succeeded entry = filter (succeeds env) services
     \<and> Failed entry = filter (fails env) services"
proof (cases "override = []")
  case True
  with assms show ?thesis
    by (auto simp: process_team_no_override)
next
  case False
  from process_team_override [OF False assms] show ?thesis
    by simp
qed

lemma process_services_loop_entries:
  assumes "process_services_loop env teams override teams_services acc = Inr ledger"
    and "(team, entry) \<in> set ledger"
  shows "(team, entry) \<in> set acc
     \<or> (\<exists>services. (team, services) \<in> set teams_services
           \<and> Succeeded entry = filter (succeeds env) services
           \<and> Failed entry = filter (fails env) services)"
  using assms
proof (induction teams_services arbitrary: acc)
  case Nil
  then show ?case by simp
next
  case (Cons pair rest)
  obtain t services where pair: "pair = (t, services)"
    by (cases pair)
  show ?case
  proof (cases "teams \<noteq> [] \<and> t \<notin> set teams")
    case True
    with Cons.prems pair
    have "process_services_loop env teams override rest acc = Inr ledger"
      by simp
    from Cons.IH [OF this Cons.prems(2)] show ?thesis
      by auto
  next
    case False
    with Cons.prems pair obtain e where
      team_run: "process_team env override services \<lparr>Succeeded = [], Failed = []\<rparr> = Inr e"
      and rest_run: "process_services_loop env teams override rest (AList.update t e acc)
          = Inr ledger"
      by (auto split: sum.splits)
    from Cons.IH [OF rest_run Cons.prems(2)]
    consider "(team, entry) \<in> set (AList.update t e acc)"
      | "\<exists>services. (team, services) \<in> set rest
            \<and> Succeeded entry = filter (succeeds env) services
            \<and> Failed entry = filter (fails env) services"
      by blast
    then show ?thesis
    proof cases
      case 1
      from update_member [OF 1] show ?thesis
      proof
        assume "(team, entry) = (t, e)"
        with process_team_result [OF team_run] pair show ?thesis
          by auto
      next
        assume "(team, entry) \<in> set acc"
        then show ?thesis by simp
      qed
    next
      case 2
      then show ?thesis by auto
    qed
  qed
qed

lemma fails_not_succeeds: "fails env s \<Longrightarrow> \<not> succeeds env s"
  by (simp add: fails_def succeeds_def split: option.splits)

lemma skipped_iff: "skipped env s = (\<not> fails env s \<and> \<not> succeeds env s)"
  by (simp add: skipped_def fails_def succeeds_def split: option.splits)

lemma count_list_filter:
  "count_list (filter P xs) x = (if P x then count_list xs x else 0)"
  by (induction xs) auto

text \<open>
  Storing under a key that the dictionary does not hold adds the pair at the end, as
  the insertion order of a dictionary has it.
\<close>

lemma update_fresh:
  "k \<notin> fst ` set al \<Longrightarrow> AList.update k v al = al @ [(k, v)]"
  by (induction al) auto

text \<open>
  Without ignore patterns the pass returns: the ledger is what it held before, followed
  by one entry for each selected team, in the order of the teams.
\<close>

lemma process_services_loop_no_override:
  "distinct (map fst teams_services) \<Longrightarrow>
   fst ` set acc \<inter> fst ` set teams_services = {} \<Longrightarrow>
   process_services_loop env teams [] teams_services acc
     = Inr (acc @ map (\<lambda>(team, services).
                        (team, \<lparr>Succeeded = filter (succeeds env) services,
                                Failed = filter (fails env) services\<rparr>))
                   (filter (\<lambda>(team, services). teams = [] \<or> team \<in> set teams)
                      teams_services))"
proof (induction teams_services arbitrary: acc)
  case Nil
  show ?case by simp
next
  case (Cons pair rest)
  obtain t services where pair: "pair = (t, services)"
    by (cases pair)
  from Cons.prems pair have rest: "distinct (map fst rest)"
    and fresh: "t \<notin> fst ` set acc" and later: "t \<notin> fst ` set rest"
    and apart: "fst ` set acc \<inter> fst ` set rest = {}"
    by auto
  show ?case
  proof (cases "teams \<noteq> [] \<and> t \<notin> set teams")
    case True
    then show ?thesis
      unfolding pair using Cons.IH [OF rest apart] by auto
  next
    case False
    let ?e = "\<lparr>Succeeded = filter (succeeds env) services,
               Failed = filter (fails env) services\<rparr>"
    have team_run: "process_team env [] services \<lparr>Succeeded = [], Failed = []\<rparr> = Inr ?e"
      by (simp add: process_team_no_override)
    from apart later have apart': "fst ` set (acc @ [(t, ?e)]) \<inter> fst ` set rest = {}"
      by auto
    from False show ?thesis
      unfolding pair
      by (auto simp: team_run update_fresh [OF fresh] Cons.IH [OF rest apart'])
  qed
qed

lemma process_services_ledger_no_override:
  assumes "distinct (map fst teams_services)"
  shows "process_services_ledger env teams [] teams_services
     = Inr (map (\<lambda>(team, services).
                   (team, \<lparr>Succeeded = filter (succeeds env) services,
                           Failed = filter (fails env) services\<rparr>))
              (filter (\<lambda>(team, services). teams = [] \<or> team \<in> set teams)
                 teams_services))"
  unfolding process_services_ledger_def
  using process_services_loop_no_override [OF assms, of "[]" env teams] by simp

lemma map_of_selected:
  assumes "distinct (map fst teams_services)"
    and "(team, services) \<in> set teams_services"
    and "teams = [] \<or> team \<in> set teams"
  shows "map_of (map (\<lambda>(team, services). (team, f services))
                   (filter (\<lambda>(team, services). teams = [] \<or> team \<in> set teams)
                      teams_services)) team
     = Some (f services)"
proof -
  from assms(1,2) have "map_of teams_services team = Some services"
    by simp
  with assms(3)
  have "map_of (filter (\<lambda>(team, services). teams = [] \<or> team \<in> set teams) teams_services)
          team = Some services"
    by (intro map_of_filter_in) auto
  then show ?thesis
    by (simp add: map_of_map)
qed

text \<open>
  C10. The ledger and its two lists.
  \<^item> In every ledger the pass produces, the entry of a team comes from that team's list of
    services; its \<open>Succeeded\<close> and \<open>Failed\<close> lists are disjoint; a service that is skipped
    is in neither; and a service that is not skipped is in the two lists together as often
    as it is in the team's list, that is once for each time it is processed.
  \<^item> A service is skipped, or fails, or succeeds, and only one of the three.
  \<^item> Without ignore patterns, and with the teams of the input under distinct keys (it is a
    dictionary), the pass does produce a ledger: one entry for each selected team, in the
    order of the input, whose \<open>Succeeded\<close> list holds the services of the team that succeed
    and whose \<open>Failed\<close> list holds those that fail, in the order of the team's list. So
    every selected team has its entry, and every service that is processed and not skipped
    is appended to one of the two lists.
\<close>

theorem C10_ledger_lists_disjoint:
  "(process_services_ledger env teams override teams_services = Inr ledger
      \<and> (team, entry) \<in> set ledger
    \<longrightarrow> (\<exists>services. (team, services) \<in> set teams_services
          \<and> set (Succeeded entry) \<inter> set (Failed entry) = {}
          \<and> (\<forall>s. count_list (Succeeded entry @ Failed entry) s
                 = (if skipped env s then 0 else count_list services s))))
   \<and> (skipped env s \<or> fails env s \<or> succeeds env s)
   \<and> \<not> (skipped env s \<and> fails env s)
   \<and> \<not> (skipped env s \<and> succeeds env s)
   \<and> \<not> (fails env s \<and> succeeds env s)
   \<and> (distinct (map fst teams_services)
    \<longrightarrow> process_services_ledger env teams [] teams_services
          = Inr (map (\<lambda>(team, services).
                        (team, \<lparr>Succeeded = filter (succeeds env) services,
                                Failed = filter (fails env) services\<rparr>))
                   (filter (\<lambda>(team, services). teams = [] \<or> team \<in> set teams)
                      teams_services))
        \<and> ((team, team_services) \<in> set teams_services \<and> (teams = [] \<or> team \<in> set teams)
           \<longrightarrow> (\<exists>ledger. process_services_ledger env teams [] teams_services = Inr ledger
                 \<and> map_of ledger team
                     = Some \<lparr>Succeeded = filter (succeeds env) team_services,
                             Failed = filter (fails env) team_services\<rparr>)))"
proof -
  have produced: "\<exists>services. (team, services) \<in> set teams_services
          \<and> set (Succeeded entry) \<inter> set (Failed entry) = {}
          \<and> (\<forall>s. count_list (Succeeded entry @ Failed entry) s
                 = (if skipped env s then 0 else count_list services s))"
    if run: "process_services_ledger env teams override teams_services = Inr ledger"
      and mem: "(team, entry) \<in> set ledger"
  proof -
    from process_services_loop_entries [OF run [unfolded process_services_ledger_def] mem]
    obtain services where mem: "(team, services) \<in> set teams_services"
      and succ: "Succeeded entry = filter (succeeds env) services"
      and fail: "Failed entry = filter (fails env) services"
      by auto
    have disjoint: "set (Succeeded entry) \<inter> set (Failed entry) = {}"
      unfolding succ fail using fails_not_succeeds by auto
    have counts: "count_list (Succeeded entry @ Failed entry) s
        = (if skipped env s then 0 else count_list services s)" for s
      unfolding succ fail using fails_not_succeeds [of env s]
      by (auto simp: count_list_filter skipped_iff)
    from mem disjoint counts show ?thesis
      by blast
  qed
  have one: "skipped env s \<or> fails env s \<or> succeeds env s"
    and not_both: "\<not> (skipped env s \<and> fails env s)" "\<not> (skipped env s \<and> succeeds env s)"
      "\<not> (fails env s \<and> succeeds env s)"
    using fails_not_succeeds [of env s] by (auto simp: skipped_iff)
  have ledger: "process_services_ledger env teams [] teams_services
          = Inr (map (\<lambda>(team, services).
                        (team, \<lparr>Succeeded = filter (succeeds env) services,
                                Failed = filter (fails env) services\<rparr>))
                   (filter (\<lambda>(team, services). teams = [] \<or> team \<in> set teams)
                      teams_services))"
    if "distinct (map fst teams_services)"
    using that by (rule process_services_ledger_no_override)
  have entry: "\<exists>ledger. process_services_ledger env teams [] teams_services = Inr ledger
                 \<and> map_of ledger team
                     = Some \<lparr>Succeeded = filter (succeeds env) team_services,
                             Failed = filter (fails env) team_services\<rparr>"
    if keys: "distinct (map fst teams_services)"
      and mem: "(team, team_services) \<in> set teams_services"
      and sel: "teams = [] \<or> team \<in> set teams"
    unfolding ledger [OF keys]
    using map_of_selected [OF keys mem sel,
        of "\<lambda>services. \<lparr>Succeeded = filter (succeeds env) services,
                         Failed = filter (fails env) services\<rparr>"]
    by simp
  from produced one not_both ledger entry show ?thesis
    by blast
qed

theorem C10_ledger_lists_disjoint_witness:
  "distinct (map fst sample_teams_services)
   \<and> process_services_ledger sample_env [] [] sample_teams_services
       = Inr [(''platform'',
                \<lparr>Succeeded = [sample_service ''billing'', sample_service ''search''],
                 Failed = [sample_service ''legacy-api'']\<rparr>),
              (''web'', \<lparr>Succeeded = [sample_service ''billing''], Failed = []\<rparr>)]
   \<and> (\<exists>ledger. process_services_ledger sample_env [] [] sample_teams_services = Inr ledger
         \<and> map_of ledger ''web''
             = Some \<lparr>Succeeded = [sample_service ''billing''], Failed = []\<rparr>)
   \<and> (\<exists>services. (''platform'', services) \<in> set sample_teams_services
         \<and> set [sample_service ''billing'', sample_service ''search'']
             \<inter> set [sample_service ''legacy-api''] = {}
         \<and> (\<forall>s. count_list [sample_service ''billing'', sample_service ''search'',
                              sample_service ''legacy-api''] s
                = (if skipped sample_env s then 0 else count_list services s)))
   \<and> succeeds sample_env (sample_service ''billing'')
   \<and> \<not> fails sample_env (sample_service ''billing'')
   \<and> \<not> skipped sample_env (sample_service ''billing'')"
proof -
  have keys: "distinct (map fst sample_teams_services)"
    by (simp add: sample_teams_services_def)
  have outcome:
    "fails sample_env (sample_service ''legacy-api'')"
    "succeeds sample_env (sample_service ''billing'')"
    "succeeds sample_env (sample_service ''search'')"
    "skipped sample_env (sample_service ''portal'')"
    "skipped sample_env (sample_service ''archive'')"
    "skipped sample_env (sample_service ''empty'')"
    "skipped sample_env (sample_service ''unknown'')"
    by (simp_all add: fails_def succeeds_def skipped_def found_build_def sample_env_def
        sample_service_def sample_pipelines_def fresh_build_def stale_build_def
        check_development_status_def get_recent_scheduled_pipeline_def recent_def)
  have sorted:
    "\<not> succeeds sample_env (sample_service ''legacy-api'')"
    "\<not> fails sample_env (sample_service ''billing'')"
    "\<not> fails sample_env (sample_service ''search'')"
    "\<not> fails sample_env (sample_service ''portal'')"
    "\<not> succeeds sample_env (sample_service ''portal'')"
    "\<not> fails sample_env (sample_service ''archive'')"
    "\<not> succeeds sample_env (sample_service ''archive'')"
    "\<not> fails sample_env (sample_service ''empty'')"
    "\<not> succeeds sample_env (sample_service ''empty'')"
    "\<not> fails sample_env (sample_service ''unknown'')"
    "\<not> succeeds sample_env (sample_service ''unknown'')"
    "\<not> skipped sample_env (sample_service ''billing'')"
    using outcome fails_not_succeeds by (auto simp: skipped_iff)
  let ?ledger = "[(''platform'',
                    \<lparr>Succeeded = [sample_service ''billing'', sample_service ''search''],
                     Failed = [sample_service ''legacy-api'']\<rparr>),
                  (''web'', \<lparr>Succeeded = [sample_service ''billing''], Failed = []\<rparr>)]"
  note claim = C10_ledger_lists_disjoint
    [of sample_env "[]" "[]" sample_teams_services ?ledger "''platform''"
        "\<lparr>Succeeded = [sample_service ''billing'', sample_service ''search''],
          Failed = [sample_service ''legacy-api'']\<rparr>"
        "sample_service ''billing''"]
  note claim_web = C10_ledger_lists_disjoint
    [of sample_env "[]" "[]" sample_teams_services ?ledger "''web''"
        "\<lparr>Succeeded = [sample_service ''billing''], Failed = []\<rparr>"
        "sample_service ''billing''" "[sample_service ''billing'']"]
  from claim keys
  have run: "process_services_ledger sample_env [] [] sample_teams_services = Inr ?ledger"
    by (simp add: sample_teams_services_def outcome sorted)
  from claim_web keys
  have web: "\<exists>ledger. process_services_ledger sample_env [] [] sample_teams_services
                 = Inr ledger
               \<and> map_of ledger ''web''
                   = Some \<lparr>Succeeded = [sample_service ''billing''], Failed = []\<rparr>"
    by (simp add: sample_teams_services_def outcome sorted)
  from claim run
  have lists: "\<exists>services. (''platform'', services) \<in> set sample_teams_services
         \<and> set [sample_service ''billing'', sample_service ''search'']
             \<inter> set [sample_service ''legacy-api''] = {}
         \<and> (\<forall>s. count_list [sample_service ''billing'', sample_service ''search'',
                              sample_service ''legacy-api''] s
                = (if skipped sample_env s then 0 else count_list services s))"
    by simp
  from keys run web lists outcome(2) sorted(2,12) show ?thesis
    by blast
qed

section \<open>Properties of the dispatcher\<close>

lemma post_to_slack_configured:
  assumes "SLACK_WEBHOOK_URL env = Some url" and "url \<noteq> []"
  shows "post_to_slack env team blocks
     = Inr \<lparr>payload_blocks = blocks, payload_channel = team_channel team\<rparr>"
  using assms by (simp add: post_to_slack_def team_channel_def)

lemma post_chunks_configured:
  "SLACK_WEBHOOK_URL env = Some url \<Longrightarrow> url \<noteq> [] \<Longrightarrow> 0 < m \<Longrightarrow>
   post_chunks env team blocks m i posted
     = Inr (posted @ map (\<lambda>chunk. \<lparr>payload_blocks = chunk, payload_channel = team_channel team\<rparr>)
                       (chunks m (drop i blocks)))"
proof (induction env team blocks m i posted rule: post_chunks.induct)
  case (1 env team blocks m i posted)
  note configured = post_to_slack_configured [OF "1.prems"(1,2)]
  show ?case
  proof (cases "i < length blocks")
    case True
    then have ne: "drop i blocks \<noteq> []" by simp
    have step: "chunks m (drop i blocks)
        = take m (drop i blocks) # chunks m (drop (i + m) blocks)"
      using ne "1.prems"(3) chunks.simps [of m "drop i blocks"] by (simp add: add.commute)
    have "post_chunks env team blocks m i posted
        = post_chunks env team blocks m (i + m)
            (posted @ [\<lparr>payload_blocks = take m (drop i blocks),
                         payload_channel = team_channel team\<rparr>])"
      using True "1.prems"(3) post_chunks.simps [of env team blocks m i posted]
      by (simp add: configured)
    also have "\<dots> = Inr ((posted @ [\<lparr>payload_blocks = take m (drop i blocks),
                         payload_channel = team_channel team\<rparr>])
          @ map (\<lambda>chunk. \<lparr>payload_blocks = chunk, payload_channel = team_channel team\<rparr>)
              (chunks m (drop (i + m) blocks)))"
      using True "1.prems" by (intro "1.IH") (simp_all add: configured)
    finally show ?thesis
      by (simp add: step)
  next
    case False
    then show ?thesis
      using post_chunks.simps [of env team blocks m i posted] chunks.simps [of m "drop i blocks"]
      by simp
  qed
qed

lemma post_team_summaries_to_slack_loop_configured:
  "SLACK_WEBHOOK_URL env = Some url \<Longrightarrow> url \<noteq> [] \<Longrightarrow> 0 < m \<Longrightarrow>
   post_team_summaries_to_slack_loop env summaries m posted
     = Inr (posted @ concat (map (\<lambda>(team, blocks).
          map (\<lambda>chunk. \<lparr>payload_blocks = chunk, payload_channel = team_channel team\<rparr>)
            (chunks m blocks)) summaries))"
proof (induction summaries arbitrary: posted)
  case Nil
  show ?case by simp
next
  case (Cons pair rest)
  obtain team blocks where pair: "pair = (team, blocks)" by (cases pair)
  show ?case
    using Cons.prems
    by (simp add: pair post_chunks_configured [OF Cons.prems] Cons.IH [OF Cons.prems])
qed

lemma concat_chunks: "0 < n \<Longrightarrow> concat (chunks n xs) = xs"
proof (induction n xs rule: chunks.induct)
  case (1 n xs)
  show ?case
  proof (cases "xs = []")
    case True
    then show ?thesis by (simp add: chunks.simps)
  next
    case False
    with 1 show ?thesis
      using chunks.simps [of n xs] by simp
  qed
qed

lemma chunks_bounds: "c \<in> set (chunks n xs) \<Longrightarrow> c \<noteq> [] \<and> length c \<le> n"
proof (induction n xs rule: chunks.induct)
  case (1 n xs)
  show ?case
  proof (cases "xs = [] \<or> n = 0")
    case True
    with "1.prems" show ?thesis using chunks.simps [of n xs] by simp
  next
    case False
    with "1.prems" have "c = take n xs \<or> c \<in> set (chunks n (drop n xs))"
      using chunks.simps [of n xs] by simp
    then show ?thesis
    proof
      assume "c = take n xs"
      with False show ?thesis by simp
    next
      assume "c \<in> set (chunks n (drop n xs))"
      with False "1.IH" show ?thesis by simp
    qed
  qed
qed

lemma chunks_full: "Suc i < length (chunks n xs) \<Longrightarrow> length (chunks n xs ! i) = n"
proof (induction n xs arbitrary: i rule: chunks.induct)
  case (1 n xs)
  show ?case
  proof (cases "xs = [] \<or> n = 0")
    case True
    with "1.prems" show ?thesis using chunks.simps [of n xs] by simp
  next
    case False
    then have unfold: "chunks n xs = take n xs # chunks n (drop n xs)"
      using chunks.simps [of n xs] by simp
    show ?thesis
    proof (cases i)
      case 0
      with "1.prems" unfold have "chunks n (drop n xs) \<noteq> []" by auto
      then have "drop n xs \<noteq> []" using chunks.simps [of n "drop n xs"] by auto
      then have "n < length xs" by simp
      with 0 unfold show ?thesis by simp
    next
      case (Suc j)
      with "1.prems" unfold have "Suc j < length (chunks n (drop n xs))" by simp
      with False "1.IH" have "length (chunks n (drop n xs) ! j) = n" by simp
      with Suc unfold show ?thesis by simp
    qed
  qed
qed

lemma chunks_23: "length xs = 23 \<Longrightarrow> map length (chunks 10 xs) = [10, 10, 3]"
proof -
  assume len: "length xs = 23"
  have a: "chunks 10 xs = take 10 xs # chunks 10 (drop 10 xs)"
    using len chunks.simps [of 10 xs] by auto
  have b: "chunks 10 (drop 10 xs) = take 10 (drop 10 xs) # chunks 10 (drop 10 (drop 10 xs))"
    using len chunks.simps [of 10 "drop 10 xs"] by auto
  have c: "chunks 10 (drop 10 (drop 10 xs))
      = take 10 (drop 10 (drop 10 xs)) # chunks 10 (drop 10 (drop 10 (drop 10 xs)))"
    using len chunks.simps [of 10 "drop 10 (drop 10 xs)"] by auto
  have d: "chunks 10 (drop 10 (drop 10 (drop 10 xs))) = []"
    using len chunks.simps [of 10 "drop 10 (drop 10 (drop 10 xs))"] by auto
  show ?thesis
    unfolding a b c d using len by simp
qed

text \<open>
  C7. With the webhook configured, \<open>post_team_summaries_to_slack\<close> posts, for each team
  in turn, the chunks of the team's block sequence, one payload for each chunk, each on
  the team's channel. The chunks are consecutive pieces of the sequence: together they
  are the sequence, none is empty or longer than 10 blocks, and every chunk but the last
  has exactly 10. A sequence of 23 blocks gives chunks of 10, 10 and 3 blocks.
\<close>

theorem C7_chunked_dispatch:
  assumes "SLACK_WEBHOOK_URL env = Some url" and "url \<noteq> []"
  shows "post_team_summaries_to_slack env summaries 10
       = Inr (concat (map (\<lambda>(team, blocks).
            map (\<lambda>chunk. \<lparr>payload_blocks = chunk, payload_channel = team_channel team\<rparr>)
              (chunks 10 blocks)) summaries))
     \<and> concat (chunks 10 blocks) = blocks
     \<and> (\<forall>c \<in> set (chunks 10 blocks). c \<noteq> [] \<and> length c \<le> 10)
     \<and> (\<forall>i. Suc i < length (chunks 10 blocks) \<longrightarrow> length (chunks 10 blocks ! i) = 10)
     \<and> (length blocks = 23 \<longrightarrow> map length (chunks 10 blocks) = [10, 10, 3])"
proof -
  have posted: "post_team_summaries_to_slack env summaries 10
       = Inr (concat (map (\<lambda>(team, blocks).
            map (\<lambda>chunk. \<lparr>payload_blocks = chunk, payload_channel = team_channel team\<rparr>)
              (chunks 10 blocks)) summaries))"
    unfolding post_team_summaries_to_slack_def
    using post_team_summaries_to_slack_loop_configured [OF assms, of 10 summaries "[]"]
    by simp
  have whole: "concat (chunks 10 blocks) = blocks"
    by (rule concat_chunks) simp
  have bounds: "\<forall>c \<in> set (chunks 10 blocks). c \<noteq> [] \<and> length c \<le> 10"
    using chunks_bounds by blast
  have full: "\<forall>i. Suc i < length (chunks 10 blocks) \<longrightarrow> length (chunks 10 blocks ! i) = 10"
    using chunks_full by blast
  have sizes: "length blocks = 23 \<longrightarrow> map length (chunks 10 blocks) = [10, 10, 3]"
    using chunks_23 by blast
  from posted whole bounds full sizes show ?thesis
    by blast
qed

theorem C7_chunked_dispatch_witness:
  "post_team_summaries_to_slack sample_env
     [(''platform'', Header ''H'' # replicate 21 Divider @ [Section ''S''])] 10
   = Inr [\<lparr>payload_blocks = Header ''H'' # replicate 9 Divider,
            payload_channel = ''team-platform-bots''\<rparr>,
          \<lparr>payload_blocks = replicate 10 Divider,
            payload_channel = ''team-platform-bots''\<rparr>,
          \<lparr>payload_blocks = replicate 2 Divider @ [Section ''S''],
            payload_channel = ''team-platform-bots''\<rparr>]"
proof -
  have url: "SLACK_WEBHOOK_URL sample_env = Some ''https://hooks.slack.com/services/T0/B0/X0''"
    by (simp add: sample_env_def)
  have nonempty: "''https://hooks.slack.com/services/T0/B0/X0'' \<noteq> []"
    by simp
  have pieces: "chunks 10 (Header ''H'' # replicate 21 Divider @ [Section ''S''])
      = [Header ''H'' # replicate 9 Divider, replicate 10 Divider,
         replicate 2 Divider @ [Section ''S'']]"
    by code_simp
  show ?thesis
    using C7_chunked_dispatch [OF url nonempty,
        of "[(''platform'', Header ''H'' # replicate 21 Divider @ [Section ''S''])]"
           "Header ''H'' # replicate 21 Divider @ [Section ''S'']"]
    by (simp add: pieces team_channel_def)
qed

text \<open>Without the webhook the first post ends the process.\<close>

lemma unconfigured_dispatch_exits:
  "post_team_summaries_to_slack (sample_env\<lparr>SLACK_WEBHOOK_URL := None\<rparr>)
     [(''platform'', replicate 23 Divider)] 10 = Inl SystemExit"
  by (simp add: post_team_summaries_to_slack_def post_chunks.simps post_to_slack_def
      sample_env_def)

section \<open>Properties of the renderers\<close>

lemma str_1: "str (Suc 0) = ''1''"
  by (simp add: str.simps digit_def)

lemma str_small: "str 0 = ''0''" "str 2 = ''2''" "str 23 = ''23''"
  by (simp_all add: str.simps digit_def)

lemma str_Suc_Suc: "str (Suc (Suc 0)) = ''2''"
  by (simp add: str.simps digit_def)

lemma str_nonempty: "str n \<noteq> []"
  by (cases "n < 10") (simp_all add: str.simps [of n])

lemma failed_lines_concat:
  "failed_lines failed lines = lines @ concat (map link_line failed)"
  by (induction failed arbitrary: lines) (simp_all add: link_line_def)

text \<open>One turn of the loop of the per-team renderer, in the words of the specification.\<close>

lemma generate_team_summaries_loop_step:
  "generate_team_summaries_loop ((team, entry) # rest) team_summaries
     = (if Failed entry = [] then generate_team_summaries_loop rest team_summaries
        else generate_team_summaries_loop rest
               (AList.update team (team_digest entry) team_summaries))"
  by (simp add: Let_def team_digest_def failed_lines_concat success_phrase_def str_1)

lemma generate_team_summaries_loop_lookup:
  "distinct (map fst ledger) \<Longrightarrow>
   map_of (generate_team_summaries_loop ledger team_summaries) team
     = (case map_of ledger team of
          None \<Rightarrow> map_of team_summaries team
        | Some entry \<Rightarrow>
            if Failed entry = [] then map_of team_summaries team
            else Some (team_digest entry))"
proof (induction ledger arbitrary: team_summaries)
  case Nil
  show ?case by simp
next
  case (Cons pair rest)
  obtain t e where pair: "pair = (t, e)" by (cases pair)
  from Cons.prems pair have fresh: "map_of rest t = None" and rest: "distinct (map fst rest)"
    by (auto simp: map_of_eq_None_iff)
  show ?case
  proof (cases "team = t")
    case True
    then have t: "t = team" by simp
    from fresh have "map_of rest team = None" unfolding t .
    then show ?thesis
      unfolding pair t generate_team_summaries_loop_step
      by (simp add: Cons.IH [OF rest] update_conv')
  next
    case False
    then show ?thesis
      unfolding pair generate_team_summaries_loop_step
      by (simp add: Cons.IH [OF rest] update_conv' split: option.splits)
  qed
qed

lemma generate_team_summaries_lookup:
  "distinct (map fst ledger) \<Longrightarrow>
   map_of (generate_team_summaries ledger) team
     = (case map_of ledger team of
          None \<Rightarrow> None
        | Some entry \<Rightarrow> if Failed entry = [] then None else Some (team_digest entry))"
  unfolding generate_team_summaries_def
  by (simp add: generate_team_summaries_loop_lookup split: option.splits)

text \<open>One turn of the loop of the overall renderer, in the words of the specification.\<close>

lemma generate_overall_summary_loop_step:
  "generate_overall_summary_loop (pair # rest) summary
     = generate_overall_summary_loop rest (summary @ overall_part pair)"
  by (cases pair)
     (simp add: Let_def overall_part_def failed_lines_concat success_phrase_def str_1)

lemma generate_overall_summary_loop_parts:
  "generate_overall_summary_loop ledger summary
     = summary @ concat (map overall_part ledger)"
proof (induction ledger arbitrary: summary)
  case Nil
  show ?case by simp
next
  case (Cons pair rest)
  show ?case
    unfolding generate_overall_summary_loop_step by (simp add: Cons.IH)
qed

text \<open>The keys of a ledger that the pass builds are distinct, as those of a dictionary are.\<close>

lemma process_services_loop_distinct:
  "distinct (map fst acc) \<Longrightarrow>
   process_services_loop env teams override teams_services acc = Inr ledger \<Longrightarrow>
   distinct (map fst ledger)"
proof (induction teams_services arbitrary: acc)
  case Nil
  then show ?case by simp
next
  case (Cons pair rest)
  obtain team services where pair: "pair = (team, services)" by (cases pair)
  show ?case
  proof (cases "teams \<noteq> [] \<and> team \<notin> set teams")
    case True
    with Cons.prems(2) have "process_services_loop env teams override rest acc = Inr ledger"
      unfolding pair by simp
    with Cons.prems(1) show ?thesis by (rule Cons.IH)
  next
    case False
    with Cons.prems(2) obtain entry where
      "process_services_loop env teams override rest (AList.update team entry acc) = Inr ledger"
      unfolding pair by (auto split: sum.splits)
    moreover from Cons.prems(1) have "distinct (map fst (AList.update team entry acc))"
      by (rule distinct_update)
    ultimately show ?thesis by (rule Cons.IH [rotated])
  qed
qed

text \<open>The singular phrase is the phrase of the count 1 only.\<close>

lemma success_phrase_singular:
  "(success_phrase n = ''>*1 repository* had a successful build.'') = (n = 1)"
proof (cases "n = 1")
  case True
  then show ?thesis by (simp add: success_phrase_def)
next
  case False
  have "''>*'' @ str n @ '' repositories* had successful builds.''
          \<noteq> ''>*1 repository* had a successful build.''"
  proof
    assume "''>*'' @ str n @ '' repositories* had successful builds.''
              = ''>*1 repository* had a successful build.''"
    then have "length (''>*'' @ str n @ '' repositories* had successful builds.'')
                 = length ''>*1 repository* had a successful build.''"
      by (rule arg_cong)
    then have "length (str n) = 0" by simp
    with str_nonempty [of n] show False by simp
  qed
  with False show ?thesis by (simp add: success_phrase_def)
qed

section \<open>The claims on the renderers\<close>

text \<open>
  C8. For a ledger (a dictionary: its keys are distinct), the per-team renderer
  \<open>generate_team_summaries\<close> holds an entry for a team exactly when the ledger has the
  team with a non-empty \<open>Failed\<close> list, whatever its \<open>Succeeded\<close> list is. The entry is
  the header, a divider, the success count, a divider and the failure section, and the
  failure section is the title followed by one formatted link line for each repository
  of the team's \<open>Failed\<close> list, in the order of that list.
\<close>

theorem C8_team_entry_iff_failed:
  assumes "distinct (map fst ledger)"
  shows "map_of (generate_team_summaries ledger) team
           = (case map_of ledger team of
                None \<Rightarrow> None
              | Some entry \<Rightarrow>
                  if Failed entry = [] then None
                  else Some
                    [Header ''Build Error Notification Dispatch System'',
                     Divider,
                     Section (''*Successful Builds*'' @ newline
                                @ success_phrase (length (Succeeded entry))),
                     Divider,
                     Section (''*Failed Builds*'' @ newline
                                @ concat (map link_line (Failed entry)))])
         \<and> (team \<in> fst ` set (generate_team_summaries ledger))
             = (\<exists>entry. map_of ledger team = Some entry \<and> Failed entry \<noteq> [])"
proof -
  have lookup: "map_of (generate_team_summaries ledger) team
                  = (case map_of ledger team of
                       None \<Rightarrow> None
                     | Some entry \<Rightarrow>
                         if Failed entry = [] then None else Some (team_digest entry))"
    using assms by (rule generate_team_summaries_lookup)
  have "(team \<in> fst ` set (generate_team_summaries ledger))
          = (map_of (generate_team_summaries ledger) team \<noteq> None)"
    by (simp add: map_of_eq_None_iff)
  also have "\<dots> = (\<exists>entry. map_of ledger team = Some entry \<and> Failed entry \<noteq> [])"
    unfolding lookup by (simp split: option.splits)
  finally have keys: "(team \<in> fst ` set (generate_team_summaries ledger))
                        = (\<exists>entry. map_of ledger team = Some entry \<and> Failed entry \<noteq> [])" .
  from lookup keys show ?thesis
    unfolding team_digest_def by simp
qed

theorem C8_team_entry_iff_failed_witness:
  "distinct (map fst sample_ledger)
   \<and> map_of (generate_team_summaries sample_ledger) ''web'' = None
   \<and> map_of (generate_team_summaries sample_ledger) ''idle'' = None
   \<and> map_of (generate_team_summaries sample_ledger) ''ops''
       = Some [Header ''Build Error Notification Dispatch System'',
               Divider,
               Section (''*Successful Builds*'' @ newline
                          @ ''>*0 repositories* had successful builds.''),
               Divider,
               Section (''*Failed Builds*'' @ newline
                          @ ''>'' @ bullet @ '' <https://bitbucket.org/acme/portal|portal>''
                          @ newline)]
   \<and> ''ops'' \<in> fst ` set (generate_team_summaries sample_ledger)
   \<and> ''web'' \<notin> fst ` set (generate_team_summaries sample_ledger)"
proof -
  have keys: "distinct (map fst sample_ledger)"
    by (simp add: sample_ledger_def)
  show ?thesis
    using keys
      C8_team_entry_iff_failed [OF keys, of "''web''"]
      C8_team_entry_iff_failed [OF keys, of "''idle''"]
      C8_team_entry_iff_failed [OF keys, of "''ops''"]
    by (simp add: sample_ledger_def sample_service_def success_phrase_def link_line_def
                  str_small)
qed

text \<open>
  C9. In both renderers the success count is the singular phrase exactly when the team's
  \<open>Succeeded\<close> list has one element, and the plural phrase with the count for every other
  length, 0 included. The overall renderer \<open>generate_overall_summary\<close> is the header
  followed by the part of each team, whose success section holds the phrase of the team's
  count (a team with both lists empty has a note in place of the two sections); in the
  per-team renderer the third block of every entry holds the phrase of the team's count.
  The phrases carry the markdown of the code: the quote mark and the bold count.
\<close>

theorem C9_success_phrase_singular_iff_one:
  "generate_overall_summary ledger
     = Header ''Build Error Notification Dispatch System''
       # concat (map (\<lambda>(team, entry).
           [Divider, Section (''Team: *'' @ team @ ''*'')]
           @ (if Succeeded entry = [] \<and> Failed entry = []
              then [Section ''No scheduled builds in repositories not in development.'']
              else [Section (''*Successful Builds*'' @ newline
                               @ success_phrase (length (Succeeded entry))),
                    Section (''*Failed Builds*'' @ newline
                               @ (if Failed entry = [] then ''>No failed builds.''
                                  else concat (map link_line (Failed entry))))])) ledger)
   \<and> (distinct (map fst ledger) \<and> map_of ledger team = Some entry \<and> Failed entry \<noteq> []
        \<longrightarrow> (\<exists>failure. map_of (generate_team_summaries ledger) team
               = Some [Header ''Build Error Notification Dispatch System'',
                       Divider,
                       Section (''*Successful Builds*'' @ newline
                                  @ success_phrase (length (Succeeded entry))),
                       Divider,
                       Section failure]))
   \<and> (success_phrase n = ''>*1 repository* had a successful build.'') = (n = 1)
   \<and> (n \<noteq> 1 \<longrightarrow> success_phrase n = ''>*'' @ str n @ '' repositories* had successful builds.'')
   \<and> success_phrase 0 = ''>*0 repositories* had successful builds.''
   \<and> success_phrase 2 = ''>*2 repositories* had successful builds.''"
proof -
  have overall: "generate_overall_summary ledger
                   = Header ''Build Error Notification Dispatch System''
                     # concat (map overall_part ledger)"
    unfolding generate_overall_summary_def
    by (simp add: generate_overall_summary_loop_parts)
  have team: "\<exists>failure. map_of (generate_team_summaries ledger) team
               = Some [Header ''Build Error Notification Dispatch System'',
                       Divider,
                       Section (''*Successful Builds*'' @ newline
                                  @ success_phrase (length (Succeeded entry))),
                       Divider,
                       Section failure]"
    if "distinct (map fst ledger)" "map_of ledger team = Some entry" "Failed entry \<noteq> []"
    using that by (simp add: generate_team_summaries_lookup team_digest_def)
  have plural: "success_phrase n = ''>*'' @ str n @ '' repositories* had successful builds.''"
    if "n \<noteq> 1"
    using that by (simp add: success_phrase_def)
  have zero: "success_phrase 0 = ''>*0 repositories* had successful builds.''"
    by (simp add: success_phrase_def str_small)
  have two: "success_phrase 2 = ''>*2 repositories* had successful builds.''"
    by (simp add: success_phrase_def str_small)
  from overall [unfolded overall_part_def] team success_phrase_singular [of n] plural zero two
  show ?thesis by blast
qed

theorem C9_success_phrase_singular_iff_one_witness:
  "generate_overall_summary sample_ledger
     = [Header ''Build Error Notification Dispatch System'',
        Divider, Section ''Team: *platform*'',
        Section (''*Successful Builds*'' @ newline
                   @ ''>*2 repositories* had successful builds.''),
        Section (''*Failed Builds*'' @ newline
                   @ ''>'' @ bullet @ '' <https://bitbucket.org/acme/legacy-api|legacy-api>''
                   @ newline),
        Divider, Section ''Team: *web*'',
        Section (''*Successful Builds*'' @ newline @ ''>*1 repository* had a successful build.''),
        Section (''*Failed Builds*'' @ newline @ ''>No failed builds.''),
        Divider, Section ''Team: *ops*'',
        Section (''*Successful Builds*'' @ newline
                   @ ''>*0 repositories* had successful builds.''),
        Section (''*Failed Builds*'' @ newline
                   @ ''>'' @ bullet @ '' <https://bitbucket.org/acme/portal|portal>''
                   @ newline),
        Divider, Section ''Team: *idle*'',
        Section ''No scheduled builds in repositories not in development.'']
   \<and> (\<exists>failure. map_of (generate_team_summaries sample_ledger) ''ops''
         = Some [Header ''Build Error Notification Dispatch System'',
                 Divider,
                 Section (''*Successful Builds*'' @ newline
                            @ ''>*0 repositories* had successful builds.''),
                 Divider,
                 Section failure])
   \<and> success_phrase 23 = ''>*23 repositories* had successful builds.''
   \<and> success_phrase 23 \<noteq> ''>*1 repository* had a successful build.''"
  using C9_success_phrase_singular_iff_one
          [of sample_ledger "''ops''"
              "\<lparr>Succeeded = [], Failed = [sample_service ''portal'']\<rparr>" 23]
  by (simp add: sample_ledger_def sample_service_def link_line_def success_phrase_def
                str_small str_1 str_Suc_Suc)

end
